theory Spec2Isabelle
  imports Complex_Main "HOL-Library.Word"
begin

section \<open>Strings and numbers of the source language\<close>

text \<open>
  The program is TypeScript. A string is a sequence of 16-bit code units, and
  \<^verbatim>\<open>length\<close>, \<^verbatim>\<open>slice\<close>, \<^verbatim>\<open>split\<close> and regular expressions without the
  \<^verbatim>\<open>u\<close> flag all work on code units; so a string is a list of 16-bit words.
  \<open>str\<close> turns an ASCII literal into such a list.
\<close>

type_synonym ustring = "16 word list"

definition str :: "string \<Rightarrow> ustring" where
  "str s = map (\<lambda>c. of_char c) s"

definition newline :: ustring where
  "newline = [0x0A]"

text \<open>
  A number is an IEEE double. The program never calculates with the numbers modelled
  here (timestamps and scores); it only tests them for truthiness and passes them on, so
  a finite double is taken as the real number it denotes (which identifies \<open>-0\<close> with
  \<open>0\<close>: both are falsy and \<^verbatim>\<open>-0 || 0\<close> is \<open>0\<close>), beside the three special values.
\<close>

datatype number = Num real | NaN | PosInfinity | NegInfinity

text \<open>\<^verbatim>\<open>Array.prototype.join\<close> with a separator.\<close>

fun join :: "ustring \<Rightarrow> ustring list \<Rightarrow> ustring" where
  "join sep [] = []"
| "join sep [x] = x"
| "join sep (x # y # ys) = x @ sep @ join sep (y # ys)"

text \<open>
  \<^verbatim>\<open>s.split('\n')\<close>: the pieces between the separators; the empty string splits
  into one empty piece. A unit other than the separator goes in front of the first
  piece of the rest (the rest always has a first piece).
\<close>

fun split_on :: "16 word \<Rightarrow> ustring \<Rightarrow> ustring list" where
  "split_on sep [] = [[]]"
| "split_on sep (c # cs) =
     (if c = sep then [] # split_on sep cs
      else (case split_on sep cs of [] \<Rightarrow> [[c]] | p # ps \<Rightarrow> (c # p) # ps))"

text \<open>The truthiness of a string, and \<^verbatim>\<open>a || b\<close> on an optional string and on an
  optional number (\<open>None\<close> is \<^verbatim>\<open>undefined\<close>, a missing field).\<close>

definition truthy_string :: "ustring \<Rightarrow> bool" where
  "truthy_string s \<longleftrightarrow> s \<noteq> []"

definition truthy_number :: "number \<Rightarrow> bool" where
  "truthy_number n \<longleftrightarrow> n \<noteq> Num 0 \<and> n \<noteq> NaN"

definition or_string :: "ustring option \<Rightarrow> ustring \<Rightarrow> ustring" where
  "or_string a b = (case a of None \<Rightarrow> b | Some s \<Rightarrow> if truthy_string s then s else b)"

definition or_number :: "number option \<Rightarrow> number \<Rightarrow> number" where
  "or_number a b = (case a of None \<Rightarrow> b | Some n \<Rightarrow> if truthy_number n then n else b)"

section \<open>Tokens and their normalization\<close>

text \<open>The interfaces \<^verbatim>\<open>Word\<close> and \<^verbatim>\<open>SpeechToTextWordResponse\<close> of index.ts. The
  fields are prefixed, since both interfaces use the same field names.\<close>

record Word =
  w_text :: ustring
  w_start :: number
  w_end :: number
  w_type :: ustring
  w_speaker_id :: ustring

record SpeechToTextWordResponse =
  r_text :: "ustring option"
  r_start :: "number option"
  r_end :: "number option"
  r_type :: "ustring option"
  r_speaker_id :: "ustring option"

text \<open>The callback of \<^verbatim>\<open>resp.words.map\<close> in \<^verbatim>\<open>main\<close> (index.ts, 528-534), and the
  map itself.\<close>

definition toWord :: "SpeechToTextWordResponse \<Rightarrow> Word" where
  "toWord w =
     \<lparr> w_text = or_string (r_text w) (str ''''),
       w_start = or_number (r_start w) (Num 0),
       w_end = or_number (r_end w) (Num 0),
       w_type = or_string (r_type w) (str ''word''),
       w_speaker_id = or_string (r_speaker_id w) (str ''unknown'') \<rparr>"

definition normalizeWords :: "SpeechToTextWordResponse list \<Rightarrow> Word list" where
  "normalizeWords ws = map toWord ws"

section \<open>The transcript assembler\<close>

text \<open>
  The character classes of the regular expression \<^verbatim>\<open>/\s+([.,!?;:])/g\<close>: \<^verbatim>\<open>\s\<close> is
  the white space and the line terminators of ECMAScript, all of them single code units.
\<close>

definition isWhiteSpace :: "16 word \<Rightarrow> bool" where
  "isWhiteSpace c \<longleftrightarrow>
     c = 0x09 \<or> c = 0x0A \<or> c = 0x0B \<or> c = 0x0C \<or> c = 0x0D \<or> c = 0x20 \<or> c = 0xA0 \<or>
     c = 0x1680 \<or> (0x2000 \<le> c \<and> c \<le> 0x200A) \<or> c = 0x2028 \<or> c = 0x2029 \<or>
     c = 0x202F \<or> c = 0x205F \<or> c = 0x3000 \<or> c = 0xFEFF"

definition isPunct :: "16 word \<Rightarrow> bool" where
  "isPunct c \<longleftrightarrow> c \<in> set (str ''.,!?;:'')"

text \<open>
  \<^verbatim>\<open>s.replace(/\s+([.,!?;:])/g, '$1')\<close>. A match starts at a white-space unit, takes
  the whole run of white space (\<^verbatim>\<open>\s+\<close> is greedy, and giving units back cannot help,
  since the unit after a shorter run is white space, not punctuation) and needs one
  of the six punctuation units next; the match is replaced by that unit. The scan goes
  left to right, so \<open>ws\<close> holds the white space read since the last other unit: it is
  dropped when punctuation follows and kept otherwise.
\<close>

fun replace_ws_punct :: "ustring \<Rightarrow> ustring \<Rightarrow> ustring" where
  "replace_ws_punct ws [] = ws"
| "replace_ws_punct ws (c # cs) =
     (if isWhiteSpace c then replace_ws_punct (ws @ [c]) cs
      else if isPunct c then c # replace_ws_punct [] cs
      else ws @ c # replace_ws_punct [] cs)"

text \<open>The state of the loop of \<^verbatim>\<open>wordsToTranscript\<close>: its three local variables.\<close>

record assembler =
  lines :: "ustring list"
  currentSpeaker :: ustring
  currentSentence :: "ustring list"

definition flush :: "assembler \<Rightarrow> assembler" where
  "flush st =
     (if currentSentence st \<noteq> [] then
        st \<lparr> lines := lines st @
                [currentSpeaker st @ str '': '' @
                 replace_ws_punct [] (join (str '' '') (currentSentence st))],
             currentSentence := [] \<rparr>
      else st)"

definition step :: "assembler \<Rightarrow> Word \<Rightarrow> assembler" where
  "step st token =
     (let st1 = (if w_speaker_id token \<noteq> currentSpeaker st
                 then (flush st) \<lparr> currentSpeaker := w_speaker_id token \<rparr>
                 else st)
      in if w_type token \<noteq> str ''spacing''
         then st1 \<lparr> currentSentence := currentSentence st1 @ [w_text token] \<rparr>
         else st1)"

text \<open>The \<^verbatim>\<open>lines\<close> array after the loop and the last flush, for a non-empty input.\<close>

definition transcriptLines :: "Word list \<Rightarrow> ustring list" where
  "transcriptLines words =
     lines (flush (foldl step
       \<lparr> lines = [], currentSpeaker = w_speaker_id (hd words), currentSentence = [] \<rparr>
       words))"

definition wordsToTranscript :: "Word list \<Rightarrow> ustring" where
  "wordsToTranscript words =
     (if words = [] then str '''' else join newline (transcriptLines words))"

subsection \<open>Runs of one speaker, in the words of the specification\<close>

text \<open>
  A run is a maximal contiguous subsequence of tokens sharing one speaker id. \<open>runs\<close>
  cuts a token sequence into its runs; \<open>run_line\<close> is the line of a run as the
  specification describes it: the speaker id, a colon and a space, and the texts of the
  tokens that are not spacing tokens, joined with single spaces, white space before
  punctuation removed.
\<close>

function runs :: "Word list \<Rightarrow> Word list list" where
  "runs [] = []"
| "runs (w # ws) =
     (w # takeWhile (\<lambda>v. w_speaker_id v = w_speaker_id w) ws) #
     runs (dropWhile (\<lambda>v. w_speaker_id v = w_speaker_id w) ws)"
  by pat_completeness auto
termination
  by (relation "measure length") (auto simp: length_dropWhile_le less_Suc_eq_le)

definition run_fragments :: "Word list \<Rightarrow> ustring list" where
  "run_fragments r = map w_text (filter (\<lambda>w. w_type w \<noteq> str ''spacing'') r)"

definition run_line :: "Word list \<Rightarrow> ustring" where
  "run_line r =
     w_speaker_id (hd r) @ str '': '' @
     replace_ws_punct [] (join (str '' '') (run_fragments r))"

definition has_text :: "Word list \<Rightarrow> bool" where
  "has_text r \<longleftrightarrow> run_fragments r \<noteq> []"

subsection \<open>Example inputs\<close>

text \<open>The five tokens of the end-to-end scenario, with any timestamps.\<close>

definition scenario_tokens :: "number \<Rightarrow> number \<Rightarrow> Word list" where
  "scenario_tokens a b =
     [\<lparr> w_text = str ''Hello'', w_start = a, w_end = b, w_type = str ''word'',
        w_speaker_id = str ''A'' \<rparr>,
      \<lparr> w_text = str '' '', w_start = a, w_end = b, w_type = str ''spacing'',
        w_speaker_id = str ''A'' \<rparr>,
      \<lparr> w_text = str ''world'', w_start = a, w_end = b, w_type = str ''word'',
        w_speaker_id = str ''A'' \<rparr>,
      \<lparr> w_text = str ''.'', w_start = a, w_end = b, w_type = str ''punctuation'',
        w_speaker_id = str ''A'' \<rparr>,
      \<lparr> w_text = str ''Hi'', w_start = a, w_end = b, w_type = str ''word'',
        w_speaker_id = str ''B'' \<rparr>]"

text \<open>Speaker A says a word, speaker B only a spacing token, then speaker A again.\<close>

definition interrupted_tokens :: "Word list" where
  "interrupted_tokens =
     [\<lparr> w_text = str ''Hi'', w_start = Num 0, w_end = Num 1, w_type = str ''word'',
        w_speaker_id = str ''A'' \<rparr>,
      \<lparr> w_text = str '' '', w_start = Num 1, w_end = Num 2, w_type = str ''spacing'',
        w_speaker_id = str ''B'' \<rparr>,
      \<lparr> w_text = str ''yo'', w_start = Num 2, w_end = Num 3, w_type = str ''word'',
        w_speaker_id = str ''A'' \<rparr>]"

text \<open>Two provider records: one with a text and a start time only, one with no field.\<close>

definition sparse_records :: "SpeechToTextWordResponse list" where
  "sparse_records =
     [\<lparr> r_text = Some (str ''Hi''), r_start = Some (Num 2), r_end = None, r_type = None,
        r_speaker_id = None \<rparr>,
      \<lparr> r_text = None, r_start = None, r_end = None, r_type = None,
        r_speaker_id = None \<rparr>]"

text \<open>A provider record whose kind and speaker id are present and empty.\<close>

definition blank_record :: SpeechToTextWordResponse where
  "blank_record =
     \<lparr> r_text = Some (str ''um''), r_start = Some (Num 1), r_end = Some (Num 2),
       r_type = Some (str ''''), r_speaker_id = Some (str '''') \<rparr>"

section \<open>Token estimate and truncation\<close>

text \<open>
  \<^verbatim>\<open>estimateTokens\<close> and \<^verbatim>\<open>truncateTranscript\<close> (index.ts, 244-271). Lengths and
  the token ceiling are whole numbers far below \<open>2^53\<close>, where the doubles of the source
  are exact, so the divisions are the real ones, with \<^verbatim>\<open>Math.ceil\<close> and
  \<^verbatim>\<open>Math.floor\<close> as ceiling and floor. The ceiling is an integer of either sign, as the
  parameter's type allows. \<open>slice\<close> is \<^verbatim>\<open>String.prototype.slice\<close>: a negative index
  counts from the end, both indices are clamped to the string, and a missing end is the
  length; \<^verbatim>\<open>-chunkSize\<close> for a chunk size of zero is zero, not a negative index.
\<close>

definition estimateTokens :: "ustring \<Rightarrow> int" where
  "estimateTokens text = \<lceil>real (length text) / 4\<rceil>"

definition slice :: "ustring \<Rightarrow> int \<Rightarrow> int option \<Rightarrow> ustring" where
  "slice s start fin =
     (let len = int (length s);
          from = (if start < 0 then max (len + start) 0 else min start len);
          to = (case fin of None \<Rightarrow> len
                | Some e \<Rightarrow> if e < 0 then max (len + e) 0 else min e len)
      in take (nat (to - from)) (drop (nat from) s))"

definition middle_marker :: ustring where
  "middle_marker = newline @ newline @ str ''[... middle section ...]'' @ newline @ newline"

definition later_marker :: ustring where
  "later_marker = newline @ newline @ str ''[... later section ...]'' @ newline @ newline"

definition truncateTranscript :: "ustring \<Rightarrow> int \<Rightarrow> ustring" where
  "truncateTranscript text maxTokens =
     (let estimated = estimateTokens text in
      if estimated \<le> maxTokens then text
      else
        let targetChars = maxTokens * 4;
            chunkSize = \<lfloor>real_of_int targetChars / 3\<rfloor>;
            beginning = slice text 0 (Some chunkSize);
            middle = slice text
              \<lfloor>real (length text) / 2 - real_of_int chunkSize / 2\<rfloor>
              (Some \<lfloor>real (length text) / 2 + real_of_int chunkSize / 2\<rfloor>);
            ending = slice text (- chunkSize) None
        in beginning @ middle_marker @ middle @ later_marker @ ending)"

text \<open>The ceiling that \<^verbatim>\<open>classifyAndOrganize\<close> uses: the default of the parameter.\<close>

definition defaultMaxTokens :: int where
  "defaultMaxTokens = 150000"

section \<open>The library tree\<close>

text \<open>
  The interfaces \<^verbatim>\<open>ThemeClassification\<close>, \<^verbatim>\<open>TranscriptMetadata\<close> and
  \<^verbatim>\<open>FolderNode\<close> of index.ts. A node carries its optional children and its
  optional metadata, as the interface does. The type of the metadata is a parameter:
  the summarizer reads it as a \<^verbatim>\<open>TranscriptMetadata\<close>, as it is declared, and the
  reader stores in it whatever \<^verbatim>\<open>JSON.parse\<close> returned, unchecked.
\<close>

datatype tier = High | Medium | Low

record ThemeClassification =
  primaryTheme :: ustring
  subTheme :: ustring
  folderName :: ustring
  theme_confidence :: tier
  summary :: ustring

record TranscriptMetadata =
  sourceUrl :: ustring
  title :: ustring
  date :: ustring
  theme :: ThemeClassification
  language :: "ustring option"
  confidence :: "number option"
  wordsDetected :: "number option"

datatype node_type = Folder | Transcript

datatype 'm FolderNode =
  FolderNode (name: ustring) (path: ustring) (type: node_type)
    (children: "'m FolderNode list option") (metadata: "'m option")

subsection \<open>The tree summarizer\<close>

text \<open>The two markers, each an emoji (a surrogate pair) and a space, and the indent
  step of \<^verbatim>\<open>folderTreeToString\<close> (index.ts, 222-239).\<close>

definition page_mark :: ustring where
  "page_mark = [0xD83D, 0xDCC4, 0x20]"

definition folder_mark :: ustring where
  "folder_mark = [0xD83D, 0xDCC1, 0x20]"

definition nonempty :: "ustring \<Rightarrow> bool" where
  "nonempty l \<longleftrightarrow> l \<noteq> []"

fun folderTreeToString :: "TranscriptMetadata FolderNode \<Rightarrow> ustring \<Rightarrow> ustring" where
  "folderTreeToString (FolderNode nm p ty ch md) indent =
     join newline
       (case (ty, md) of
          (Transcript, Some m) \<Rightarrow>
            [indent @ page_mark @ nm,
             indent @ str ''   Summary: '' @ summary (theme m),
             indent @ str ''   Theme: '' @ primaryTheme (theme m) @ str '' > '' @
               subTheme (theme m)]
        | (Transcript, None) \<Rightarrow> []
        | (Folder, _) \<Rightarrow>
            (if indent \<noteq> [] then [indent @ folder_mark @ nm @ str ''/''] else []) @
            (case ch of
               None \<Rightarrow> []
             | Some cs \<Rightarrow>
                 concat (map (\<lambda>child.
                   filter nonempty
                     (split_on 0x0A (folderTreeToString child (indent @ str ''  '')))) cs)))"

subsection \<open>The rendering, in the words of the specification\<close>

text \<open>
  The indent of depth \<open>d\<close> is \<open>d\<close> steps of two spaces; the root has depth \<open>0\<close>. A
  transcript entry is a marker line with its name, a line with its stored summary and
  a line with its theme path; a category folder is a marker line, which the root does
  not have, and then its children one level deeper. An entry without metadata, which
  the data model excludes, has no line. \<open>drop_blank\<close> cuts lines at their line breaks
  and drops the empty pieces.
\<close>

definition indent_of :: "nat \<Rightarrow> ustring" where
  "indent_of d = replicate (2 * d) 0x20"

fun renderNode :: "nat \<Rightarrow> TranscriptMetadata FolderNode \<Rightarrow> ustring list" where
  "renderNode d (FolderNode nm p ty ch md) =
     (case (ty, md) of
        (Transcript, Some m) \<Rightarrow>
          [indent_of d @ page_mark @ nm,
           indent_of d @ str ''   Summary: '' @ summary (theme m),
           indent_of d @ str ''   Theme: '' @ primaryTheme (theme m) @ str '' > '' @
             subTheme (theme m)]
      | (Transcript, None) \<Rightarrow> []
      | (Folder, _) \<Rightarrow>
          (if d = 0 then [] else [indent_of d @ folder_mark @ nm @ str ''/'']) @
          (case ch of
             None \<Rightarrow> []
           | Some cs \<Rightarrow> concat (map (renderNode (Suc d)) cs)))"

definition drop_blank :: "ustring list \<Rightarrow> ustring list" where
  "drop_blank ls = filter nonempty (concat (map (split_on 0x0A) ls))"

definition line_free :: "ustring \<Rightarrow> bool" where
  "line_free s \<longleftrightarrow> 0x0A \<notin> set s"

fun no_line_breaks :: "TranscriptMetadata FolderNode \<Rightarrow> bool" where
  "no_line_breaks (FolderNode nm p ty ch md) \<longleftrightarrow>
     line_free nm \<and>
     (case md of
        None \<Rightarrow> True
      | Some m \<Rightarrow> line_free (summary (theme m)) \<and> line_free (primaryTheme (theme m)) \<and>
          line_free (subTheme (theme m))) \<and>
     (case ch of None \<Rightarrow> True | Some cs \<Rightarrow> list_all no_line_breaks cs)"

text \<open>A library with one category \<open>ai-podcasts\<close> that holds one transcript entry, whose
  stored summary is the parameter.\<close>

definition sample_entry :: "ustring \<Rightarrow> TranscriptMetadata FolderNode" where
  "sample_entry s =
     FolderNode (str ''talk'') (str ''ai-podcasts/talk'') Transcript None
       (Some \<lparr> sourceUrl = str ''https://example.org/v'', title = str ''talk'',
                date = str ''2025-01-01'',
                theme = \<lparr> primaryTheme = str ''ai-podcasts'', subTheme = str ''talk'',
                          folderName = str ''ai-podcasts'', theme_confidence = High,
                          summary = s \<rparr>,
                language = None, confidence = None, wordsDetected = None \<rparr>)"

definition sample_library :: "ustring \<Rightarrow> TranscriptMetadata FolderNode" where
  "sample_library s =
     FolderNode (str ''transcripts'') (str ''/home/u/Documents/transcripts'') Folder
       (Some [FolderNode (str ''ai-podcasts'') (str ''ai-podcasts'') Folder
                (Some [sample_entry s]) None])
       None"

section \<open>The file system and the library reader\<close>

text \<open>
  A JSON value, as \<^verbatim>\<open>JSON.parse\<close> returns it, and its truthiness: \<^verbatim>\<open>null\<close>,
  \<^verbatim>\<open>false\<close>, \<open>0\<close> and the empty string are falsy, every object and array is truthy.
\<close>

datatype json =
  JNull | JBool bool | JNumber number | JString ustring | JArray "json list"
  | JObject "(ustring \<times> json) list"

fun truthy_json :: "json \<Rightarrow> bool" where
  "truthy_json JNull = False"
| "truthy_json (JBool b) = b"
| "truthy_json (JNumber n) = truthy_number n"
| "truthy_json (JString s) = truthy_string s"
| "truthy_json (JArray vs) = True"
| "truthy_json (JObject kvs) = True"

text \<open>
  A directory is the list of its entries, in the order \<^verbatim>\<open>readdir\<close> returns them, each
  a name and a file or a directory; the type of a file's content is a parameter. The
  errors are those of the \<^verbatim>\<open>fs\<close> calls and of \<^verbatim>\<open>JSON.parse\<close>.
\<close>

datatype 'c fsnode = File 'c | Dir "(ustring \<times> 'c fsnode) list"

datatype fs_error = ENOENT | EISDIR | ENOTDIR | EEXIST | SyntaxError

text \<open>
  For the reader a file's content matters only through \<^verbatim>\<open>JSON.parse\<close>: a text
  either parses to a value or is malformed.
\<close>

datatype json_text = Parses json | Malformed

definition JSON_parse :: "json_text \<Rightarrow> fs_error + json" where
  "JSON_parse t = (case t of Parses v \<Rightarrow> Inr v | Malformed \<Rightarrow> Inl SyntaxError)"

text \<open>\<^verbatim>\<open>fs.readFile\<close> of the entry \<open>nm\<close> of a directory with the entries \<open>es\<close>.\<close>

definition readFile :: "(ustring \<times> 'c fsnode) list \<Rightarrow> ustring \<Rightarrow> fs_error + 'c" where
  "readFile es nm =
     (case map_of es nm of
        None \<Rightarrow> Inl ENOENT
      | Some (Dir sub) \<Rightarrow> Inl EISDIR
      | Some (File c) \<Rightarrow> Inr c)"

text \<open>
  The \<^verbatim>\<open>try\<close> block of \<^verbatim>\<open>readDir\<close> (index.ts, 177-184): the variable
  \<^verbatim>\<open>metadata\<close> (here \<open>md\<close>) after it, \<open>None\<close> for \<^verbatim>\<open>undefined\<close>; both errors are caught. Then the
  test \<^verbatim>\<open>if (metadata)\<close>.
\<close>

definition loadMetadata :: "(ustring \<times> json_text fsnode) list \<Rightarrow> json option" where
  "loadMetadata sub =
     (case readFile sub (str ''metadata.json'') of
        Inl e \<Rightarrow> None
      | Inr metadataContent \<Rightarrow>
          (case JSON_parse metadataContent of Inl e \<Rightarrow> None | Inr v \<Rightarrow> Some v))"

definition truthy_metadata :: "json option \<Rightarrow> bool" where
  "truthy_metadata md = (case md of None \<Rightarrow> False | Some v \<Rightarrow> truthy_json v)"

text \<open>
  \<^verbatim>\<open>readDir\<close> (index.ts, 166-208), on the entries of the directory it reads: the loop
  over the entries, which skips what is not a directory.
\<close>

fun readDir :: "(ustring \<times> json_text fsnode) list \<Rightarrow> ustring \<Rightarrow> json FolderNode list" where
  "readDir [] relativePath = []"
| "readDir ((nm, File c) # es) relativePath = readDir es relativePath"
| "readDir ((nm, Dir sub) # es) relativePath =
     (let relPath = (if relativePath \<noteq> [] then relativePath @ str ''/'' @ nm else nm);
          md = loadMetadata sub
      in (if truthy_metadata md
          then FolderNode nm relPath Transcript None md
          else FolderNode nm relPath Folder (Some (readDir sub relPath)) None)
         # readDir es relativePath)"

text \<open>
  \<^verbatim>\<open>readLibraryStructure\<close> (index.ts, 150-217), on the state of the base directory:
  \<open>None\<close> when \<^verbatim>\<open>fs.access\<close> fails. A base path that is a file passes \<^verbatim>\<open>fs.access\<close>
  and fails in \<^verbatim>\<open>readdir\<close>, which nothing catches.
\<close>

definition readLibraryStructure ::
  "json_text fsnode option \<Rightarrow> ustring \<Rightarrow> fs_error + json FolderNode" where
  "readLibraryStructure base baseDir =
     (case base of
        None \<Rightarrow> Inr (FolderNode (str ''transcripts'') baseDir Folder (Some []) None)
      | Some (File c) \<Rightarrow> Inl ENOTDIR
      | Some (Dir es) \<Rightarrow>
          Inr (FolderNode (str ''transcripts'') baseDir Folder
                 (Some (readDir es (str ''''))) None))"

subsection \<open>The classification, in the words of the specification\<close>

text \<open>
  The subdirectories of a listing, in order; the metadata record of a directory where
  it is present and parses; and the node of a subdirectory, given whether it counts as
  a transcript entry.
\<close>

fun subdirectories :: "(ustring \<times> 'c fsnode) list \<Rightarrow> (ustring \<times> (ustring \<times> 'c fsnode) list) list" where
  "subdirectories [] = []"
| "subdirectories ((nm, File c) # es) = subdirectories es"
| "subdirectories ((nm, Dir sub) # es) = (nm, sub) # subdirectories es"

definition metadata_record :: "(ustring \<times> json_text fsnode) list \<Rightarrow> json option" where
  "metadata_record sub =
     (case map_of sub (str ''metadata.json'') of
        Some (File (Parses v)) \<Rightarrow> Some v
      | _ \<Rightarrow> None)"

definition child_path :: "ustring \<Rightarrow> ustring \<Rightarrow> ustring" where
  "child_path rel nm = (if rel = [] then nm else rel @ str ''/'' @ nm)"

definition transcript_entry :: "ustring \<Rightarrow> ustring \<Rightarrow> json option \<Rightarrow> json FolderNode" where
  "transcript_entry rel nm md = FolderNode nm (child_path rel nm) Transcript None md"

definition category_folder :: "ustring \<Rightarrow> ustring \<Rightarrow> json FolderNode list \<Rightarrow> json FolderNode" where
  "category_folder rel nm cs = FolderNode nm (child_path rel nm) Folder (Some cs) None"

text \<open>A directory whose \<^verbatim>\<open>metadata.json\<close> holds the text \<^verbatim>\<open>null\<close>.\<close>

definition null_metadata_dir :: "(ustring \<times> json_text fsnode) list" where
  "null_metadata_dir = [(str ''metadata.json'', File (Parses JNull))]"

text \<open>
  An archive root with a note, a category that holds an entry with an object as its
  metadata and a folder with malformed metadata, and an empty category.
\<close>

definition sample_archive :: "(ustring \<times> json_text fsnode) list" where
  "sample_archive =
     [(str ''README.txt'', File Malformed),
      (str ''ai'', Dir
         [(str ''talk'', Dir
             [(str ''metadata.json'', File (Parses (JObject [(str ''title'', JString (str ''t''))])))]),
          (str ''draft'', Dir [(str ''metadata.json'', File Malformed)])]),
      (str ''misc'', Dir [])]"

section \<open>The classifier's prompt\<close>

text \<open>
  The prompt that \<^verbatim>\<open>classifyAndOrganize\<close> builds (index.ts, 285-342): the test
  \<^verbatim>\<open>hasExistingTranscripts\<close> and the two template literals, line by line.
\<close>

definition hasExistingTranscripts :: "'m FolderNode \<Rightarrow> bool" where
  "hasExistingTranscripts libraryStructure =
     (case children libraryStructure of None \<Rightarrow> False | Some cs \<Rightarrow> length cs > 0)"

definition incrementalPrompt :: "ustring \<Rightarrow> ustring \<Rightarrow> ustring \<Rightarrow> ustring \<Rightarrow> ustring" where
  \<open>incrementalPrompt videoUrl videoTitle folderTreeString processedTranscript =
     join newline
       [str ''You are maintaining a knowledge library of audio/video transcripts.'',
        str '''',
        str ''SOURCE INFORMATION:'',
        str ''URL: '' @ videoUrl,
        str ''Title: '' @ videoTitle,
        str '''',
        str ''CURRENT LIBRARY STRUCTURE:'',
        or_string (Some folderTreeString) (str ''(Empty - this will be the first transcript)''),
        str '''',
        str ''NEW TRANSCRIPT TO ORGANIZE:'',
        processedTranscript,
        str '''',
        str ''YOUR TASK:'',
        str ''1. Analyze the new transcript's content and main themes'',
        str ''2. Review the existing library structure'',
        str ''3. Decide the optimal SINGLE-LEVEL category folder for this transcript'',
        str '''',
        str ''DECISION CRITERIA:'',
        str ''- Use existing folders when semantically appropriate (similar content/theme)'',
        str ''- Create new categories when the content doesn't fit existing ones'',
        str ''- Use kebab-case for folder names'',
        str ''- Keep categories broad enough to group related content but specific enough to be meaningful'',
        str ''- IMPORTANT: Use only ONE level of categorization (e.g., "ai-podcasts" not "technology/ai/podcasts")'',
        str '''',
        str ''Respond with a JSON object (no markdown code blocks):'',
        str ''{'',
        str ''  "newTranscriptPath": "category-name",'',
        str ''  "reasoning": "Explain why this category fits the content",'',
        str ''  "confidence": "high/medium/low"'',
        str ''}'']\<close>

definition bootstrapPrompt :: "ustring \<Rightarrow> ustring \<Rightarrow> ustring \<Rightarrow> ustring" where
  \<open>bootstrapPrompt videoUrl videoTitle processedTranscript =
     join newline
       [str ''You are creating a knowledge library of audio/video transcripts.'',
        str '''',
        str ''SOURCE INFORMATION:'',
        str ''URL: '' @ videoUrl,
        str ''Title: '' @ videoTitle,
        str '''',
        str ''TRANSCRIPT:'',
        processedTranscript,
        str '''',
        str ''This is the FIRST transcript in the library. Create an initial folder structure that:'',
        str ''- Uses a SINGLE level of categorization'',
        str ''- Is specific enough to be useful but not over-categorized'',
        str ''- Uses kebab-case for folder names'',
        str ''- Sets a good foundation for future organization'',
        str ''- Example: "ai-podcasts" or "business-interviews" (NOT "technology/ai/podcasts")'',
        str '''',
        str ''Respond with a JSON object (no markdown code blocks):'',
        str ''{'',
        str ''  "newTranscriptPath": "category-name",'',
        str ''  "reasoning": "Explain why you chose this category",'',
        str ''  "confidence": "high/medium/low"'',
        str ''}'']\<close>

definition classifyAndOrganize_prompt ::
  "ustring \<Rightarrow> ustring \<Rightarrow> ustring \<Rightarrow> TranscriptMetadata FolderNode \<Rightarrow> ustring" where
  "classifyAndOrganize_prompt transcript videoUrl videoTitle libraryStructure =
     (let processedTranscript = truncateTranscript transcript defaultMaxTokens;
          folderTreeString = folderTreeToString libraryStructure (str '''')
      in if hasExistingTranscripts libraryStructure
         then incrementalPrompt videoUrl videoTitle folderTreeString processedTranscript
         else bootstrapPrompt videoUrl videoTitle processedTranscript)"

subsection \<open>Existing transcript entries, in the words of the specification\<close>

text \<open>The number of transcript entries in a library tree.\<close>

fun transcript_entries :: "'m FolderNode \<Rightarrow> nat" where
  "transcript_entries (FolderNode nm p ty ch md) =
     (if ty = Transcript then 1 else 0) +
     (case ch of None \<Rightarrow> 0 | Some cs \<Rightarrow> sum_list (map transcript_entries cs))"

text \<open>A library whose only node under the root is an empty category folder.\<close>

definition empty_category_library :: "TranscriptMetadata FolderNode" where
  "empty_category_library =
     FolderNode (str ''transcripts'') (str ''/home/u/Documents/transcripts'') Folder
       (Some [FolderNode (str ''ai-podcasts'') (str ''ai-podcasts'') Folder (Some []) None])
       None"

text \<open>The library of a first run: a root with no children.\<close>

definition first_run_library :: "TranscriptMetadata FolderNode" where
  "first_run_library =
     FolderNode (str ''transcripts'') (str ''/home/u/Documents/transcripts'') Folder
       (Some []) None"

section \<open>Writing the artifacts\<close>

text \<open>
  The end of \<^verbatim>\<open>main\<close> (index.ts, 553-595), on the state of the destination path:
  \<open>None\<close> where nothing exists, else the file or directory there. \<^verbatim>\<open>fs.mkdir\<close> with
  \<^verbatim>\<open>recursive\<close> creates a missing directory, accepts an existing one and fails on a
  file. \<^verbatim>\<open>fs.writeFile\<close> creates or replaces a file and fails where the name is a
  directory.
\<close>

definition mkdir_recursive :: "'c fsnode option \<Rightarrow> fs_error + (ustring \<times> 'c fsnode) list" where
  "mkdir_recursive dest =
     (case dest of
        None \<Rightarrow> Inr []
      | Some (Dir es) \<Rightarrow> Inr es
      | Some (File c) \<Rightarrow> Inl EEXIST)"

fun put_entry :: "ustring \<Rightarrow> 'c fsnode \<Rightarrow> (ustring \<times> 'c fsnode) list \<Rightarrow> (ustring \<times> 'c fsnode) list" where
  "put_entry nm n [] = [(nm, n)]"
| "put_entry nm n ((k, v) # es) = (if k = nm then (nm, n) # es else (k, v) # put_entry nm n es)"

definition writeFile ::
  "(ustring \<times> 'c fsnode) list \<Rightarrow> ustring \<Rightarrow> 'c \<Rightarrow> fs_error + (ustring \<times> 'c fsnode) list" where
  "writeFile es nm c =
     (case map_of es nm of
        Some (Dir sub) \<Rightarrow> Inl EISDIR
      | _ \<Rightarrow> Inr (put_entry nm (File c) es))"

text \<open>
  \<^verbatim>\<open>Promise.all\<close> over the four writes. Every write is started before any is
  awaited, and a write that fails stops no other: the directory after them holds what
  the successful writes left, and the promise is rejected with an error when one
  failed (here the error of the first failed write of the list; which one the promise
  carries depends on timing, and nothing below depends on it). The four names differ,
  so the order of the writes does not matter.
\<close>

fun write_all ::
  "(ustring \<times> 'c fsnode) list \<Rightarrow> (ustring \<times> 'c) list \<Rightarrow> (ustring \<times> 'c fsnode) list \<times> fs_error option" where
  "write_all es [] = (es, None)"
| "write_all es ((nm, c) # fs) =
     (case writeFile es nm c of
        Inl e \<Rightarrow> (case write_all es fs of (es', err) \<Rightarrow> (es', Some e))
      | Inr es1 \<Rightarrow> write_all es1 fs)"

text \<open>The four artifacts of a run: the names, with the texts the run has for them.\<close>

record 'c artifacts =
  resp_text :: 'c
  resp_json :: 'c
  structuredTranscript :: 'c
  metadata_json :: 'c

definition artifact_files :: "'c artifacts \<Rightarrow> (ustring \<times> 'c) list" where
  "artifact_files a =
     [(str ''transcription-raw.txt'', resp_text a),
      (str ''transcription-raw.json'', resp_json a),
      (str ''transcription.txt'', structuredTranscript a),
      (str ''metadata.json'', metadata_json a)]"

text \<open>
  \<^verbatim>\<open>fs.unlink\<close>, on the state of the path it removes: it succeeds on a file and fails
  where nothing exists or a directory stands.
\<close>

definition unlink :: "'c fsnode option \<Rightarrow> fs_error + unit" where
  "unlink target =
     (case target of
        None \<Rightarrow> Inl ENOENT
      | Some (Dir es) \<Rightarrow> Inl EISDIR
      | Some (File c) \<Rightarrow> Inr ())"

text \<open>
  The run from the archive's side. \<open>earlier\<close> is the outcome of everything before the
  call of \<^verbatim>\<open>fs.mkdir\<close> (line 556), none of which touches the archive: an error, or
  the texts to save. After the four writes (and only when all of them succeeded: a
  rejected \<^verbatim>\<open>Promise.all\<close> ends \<^verbatim>\<open>main\<close>) comes the cleanup of lines 600-603: when
  \<^verbatim>\<open>needsCleanup\<close> is set, the run awaits \<^verbatim>\<open>fs.unlink(TMP_AUDIO)\<close>, and a
  rejection there fails the run; \<open>tmp\<close> is the state of the temporary audio path at
  that moment. The temporary file is outside the archive. The result is the state of
  the destination path after the run and the run's outcome.
\<close>

definition save_run ::
  "fs_error + 'c artifacts \<Rightarrow> bool \<Rightarrow> 'c fsnode option \<Rightarrow> 'c fsnode option \<Rightarrow>
   'c fsnode option \<times> (fs_error + unit)" where
  "save_run earlier needsCleanup tmp dest =
     (case earlier of
        Inl e \<Rightarrow> (dest, Inl e)
      | Inr a \<Rightarrow>
          (case mkdir_recursive dest of
             Inl e \<Rightarrow> (dest, Inl e)
           | Inr es \<Rightarrow>
               (case write_all es (artifact_files a) of
                  (es', None) \<Rightarrow>
                    (Some (Dir es'), if needsCleanup then unlink tmp else Inr ())
                | (es', Some e) \<Rightarrow> (Some (Dir es'), Inl e))))"

text \<open>An artifact is produced when the destination holds a file of its name with the
  run's text; \<open>produced_count\<close> counts the produced artifacts of a run.\<close>

definition produced :: "'c fsnode option \<Rightarrow> ustring \<times> 'c \<Rightarrow> bool" where
  "produced dest f =
     (case dest of
        Some (Dir es) \<Rightarrow> map_of es (fst f) = Some (File (snd f))
      | _ \<Rightarrow> False)"

definition produced_count :: "'c fsnode option \<Rightarrow> 'c artifacts \<Rightarrow> nat" where
  "produced_count dest a = length (filter (produced dest) (artifact_files a))"

text \<open>The texts of a run, and a destination folder in which the name
  \<^verbatim>\<open>metadata.json\<close> is taken by a directory.\<close>

definition sample_artifacts :: "ustring artifacts" where
  "sample_artifacts =
     \<lparr> resp_text = str ''Hi'', resp_json = str ''{}'', structuredTranscript = str ''A: Hi'',
       metadata_json = str ''{}'' \<rparr>"

definition blocked_destination :: "ustring fsnode option" where
  "blocked_destination = Some (Dir [(str ''metadata.json'', Dir [])])"

definition is_dir :: "(ustring \<times> 'c fsnode) list \<Rightarrow> ustring \<Rightarrow> bool" where
  "is_dir es nm = (case map_of es nm of Some (Dir sub) \<Rightarrow> True | _ \<Rightarrow> False)"

text \<open>The temporary audio file of a run that downloaded or extracted its audio.\<close>

definition sample_tmp :: "ustring fsnode option" where
  "sample_tmp = Some (File (str ''audio''))"

section \<open>Properties of the normalizer\<close>

lemma or_string_cases:
  "or_string a b = (case a of None \<Rightarrow> b | Some s \<Rightarrow> if s = [] then b else s)"
  by (simp add: or_string_def truthy_string_def split: option.splits)

lemma or_number_cases:
  "or_number a (Num 0) = (case a of None \<Rightarrow> Num 0 | Some n \<Rightarrow> if n = NaN then Num 0 else n)"
  by (simp add: or_number_def truthy_number_def split: option.splits)

lemma or_string_nonempty: "b \<noteq> [] \<Longrightarrow> or_string a b \<noteq> []"
  by (simp add: or_string_cases split: option.splits)

text \<open>
  C3. The normalizer maps the records one to one and in order: the output is as long as
  the input, and its token at each index is made from the record at that index alone,
  with \<open>''\<close> for a missing text, \<open>0\<close> for a missing start or end, \<open>'word'\<close> for a
  missing kind and \<open>'unknown'\<close> for a missing speaker id. The function is total: no
  record makes it fail.
\<close>

theorem normalizeWords_one_to_one:
  "length (normalizeWords ws) = length ws \<and>
   (\<forall>i < length ws.
      normalizeWords ws ! i =
        \<lparr> w_text = (case r_text (ws ! i) of None \<Rightarrow> str '''' | Some t \<Rightarrow> t),
          w_start = (case r_start (ws ! i) of None \<Rightarrow> Num 0
                     | Some x \<Rightarrow> if x = NaN then Num 0 else x),
          w_end = (case r_end (ws ! i) of None \<Rightarrow> Num 0
                   | Some x \<Rightarrow> if x = NaN then Num 0 else x),
          w_type = (case r_type (ws ! i) of None \<Rightarrow> str ''word''
                    | Some k \<Rightarrow> if k = [] then str ''word'' else k),
          w_speaker_id = (case r_speaker_id (ws ! i) of None \<Rightarrow> str ''unknown''
                          | Some k \<Rightarrow> if k = [] then str ''unknown'' else k) \<rparr>)"
  by (simp add: normalizeWords_def toWord_def or_string_cases or_number_cases str_def
      split: option.splits)

theorem normalizeWords_one_to_one_witness:
  "length (normalizeWords sparse_records) = 2 \<and>
   normalizeWords sparse_records ! 0 =
     \<lparr> w_text = str ''Hi'', w_start = Num 2, w_end = Num 0, w_type = str ''word'',
       w_speaker_id = str ''unknown'' \<rparr> \<and>
   normalizeWords sparse_records ! 1 =
     \<lparr> w_text = str '''', w_start = Num 0, w_end = Num 0, w_type = str ''word'',
       w_speaker_id = str ''unknown'' \<rparr>"
proof -
  have len: "length sparse_records = 2"
    by (simp add: sparse_records_def)
  note all = normalizeWords_one_to_one [of sparse_records, THEN conjunct2, rule_format]
  have l: "length (normalizeWords sparse_records) = length sparse_records"
    using normalizeWords_one_to_one [of sparse_records] by simp
  have "normalizeWords sparse_records ! 0 =
     \<lparr> w_text = str ''Hi'', w_start = Num 2, w_end = Num 0, w_type = str ''word'',
       w_speaker_id = str ''unknown'' \<rparr>"
    using all [of 0] by (simp add: sparse_records_def str_def)
  moreover have "normalizeWords sparse_records ! 1 =
     \<lparr> w_text = str '''', w_start = Num 0, w_end = Num 0, w_type = str ''word'',
       w_speaker_id = str ''unknown'' \<rparr>"
    using all [of 1] by (simp add: sparse_records_def)
  ultimately show ?thesis using l len by simp
qed

text \<open>
  C10. The defaults replace every falsy value, not only a missing one: a record whose
  kind is the empty string gets the kind \<open>'word'\<close>, one whose speaker id is the empty
  string gets \<open>'unknown'\<close>, and so no normalized token has an empty kind or an empty
  speaker id.
\<close>

theorem normalizeWords_falsy_defaults:
  "(r_type w = Some [] \<longrightarrow> w_type (toWord w) = str ''word'') \<and>
   (r_speaker_id w = Some [] \<longrightarrow> w_speaker_id (toWord w) = str ''unknown'') \<and>
   (\<forall>t \<in> set (normalizeWords ws). w_type t \<noteq> [] \<and> w_speaker_id t \<noteq> [])"
proof -
  have "w_type (toWord v) \<noteq> [] \<and> w_speaker_id (toWord v) \<noteq> []" for v
    by (simp add: toWord_def or_string_nonempty str_def)
  then show ?thesis
    by (auto simp: normalizeWords_def toWord_def or_string_cases)
qed

theorem normalizeWords_falsy_defaults_witness:
  "r_type blank_record = Some [] \<and> r_speaker_id blank_record = Some [] \<and>
   w_type (toWord blank_record) = str ''word'' \<and>
   w_speaker_id (toWord blank_record) = str ''unknown'' \<and>
   w_type (hd (normalizeWords [blank_record])) \<noteq> [] \<and>
   w_speaker_id (hd (normalizeWords [blank_record])) \<noteq> []"
proof -
  have a: "r_type blank_record = Some []" and b: "r_speaker_id blank_record = Some []"
    by (simp_all add: blank_record_def str_def)
  have c: "hd (normalizeWords [blank_record]) \<in> set (normalizeWords [blank_record])"
    by (simp add: normalizeWords_def)
  from normalizeWords_falsy_defaults [of blank_record "[blank_record]"] a b c
  show ?thesis by blast
qed

section \<open>Properties of the transcript assembler\<close>

lemma run_fragments_append: "run_fragments (xs @ ys) = run_fragments xs @ run_fragments ys"
  by (simp add: run_fragments_def)

lemma step_same:
  "w_speaker_id w = currentSpeaker st \<Longrightarrow>
   step st w = st \<lparr> currentSentence := currentSentence st @ run_fragments [w] \<rparr>"
  by (simp add: step_def Let_def run_fragments_def)

lemma foldl_step_same:
  "\<forall>w \<in> set ws. w_speaker_id w = currentSpeaker st \<Longrightarrow>
   foldl step st ws = st \<lparr> currentSentence := currentSentence st @ run_fragments ws \<rparr>"
proof (induction ws arbitrary: st)
  case Nil
  then show ?case by (simp add: run_fragments_def)
next
  case (Cons w ws)
  have stp: "step st w = st \<lparr> currentSentence := currentSentence st @ run_fragments [w] \<rparr>"
    using Cons.prems by (simp add: step_same)
  have "\<forall>v \<in> set ws. w_speaker_id v = currentSpeaker (step st w)"
    using Cons.prems by (simp add: stp)
  from Cons.IH [OF this] show ?case
    by (simp add: stp run_fragments_def)
qed

lemma flush_idem: "flush (flush st) = flush st"
  by (simp add: flush_def)

lemma step_flush:
  "w_speaker_id w \<noteq> currentSpeaker st \<Longrightarrow> step (flush st) w = step st w"
  by (simp add: step_def flush_def Let_def)

lemma lines_flush_foldl:
  "currentSentence st = [] \<Longrightarrow>
   lines (flush (foldl step st ws)) = lines st @ map run_line (filter has_text (runs ws))"
proof (induction ws arbitrary: st rule: runs.induct)
  case 1
  then show ?case by (simp add: flush_def)
next
  case (2 w ws)
  define s where "s = w_speaker_id w"
  define pre where "pre = takeWhile (\<lambda>v. w_speaker_id v = s) ws"
  define post where "post = dropWhile (\<lambda>v. w_speaker_id v = s) ws"
  define st3 where
    "st3 = st \<lparr> currentSpeaker := s, currentSentence := run_fragments (w # pre) \<rparr>"
  have split: "ws = pre @ post" by (simp add: pre_def post_def)
  have st2: "step st w = st \<lparr> currentSpeaker := s, currentSentence := run_fragments [w] \<rparr>"
    using "2.prems" by (simp add: step_def flush_def Let_def s_def run_fragments_def)
  have "\<forall>v \<in> set pre. w_speaker_id v = currentSpeaker (step st w)"
    by (auto simp: st2 pre_def dest: set_takeWhileD)
  from foldl_step_same [OF this]
  have pre3: "foldl step (step st w) pre = st3"
    by (simp add: st2 st3_def run_fragments_def)
  have whole: "foldl step st (w # ws) = foldl step st3 post"
    by (simp add: split pre3)
  have line3: "lines (flush st3) = lines st @ map run_line (filter has_text [w # pre])"
    by (simp add: flush_def st3_def has_text_def run_line_def s_def)
  have rest: "lines (flush (foldl step st3 post))
      = lines (flush st3) @ map run_line (filter has_text (runs post))"
  proof (cases post)
    case Nil
    then show ?thesis by simp
  next
    case (Cons v post')
    have "w_speaker_id v \<noteq> s"
      using Cons hd_dropWhile [of "\<lambda>v. w_speaker_id v = s" ws] by (simp add: post_def)
    then have "step (flush st3) v = step st3 v"
      by (intro step_flush) (simp add: st3_def)
    then have "foldl step st3 post = foldl step (flush st3) post"
      by (simp add: Cons)
    moreover have "currentSentence (flush st3) = []"
      by (simp add: flush_def)
    from "2.IH" [OF this]
    have "lines (flush (foldl step (flush st3) post))
      = lines (flush st3) @ map run_line (filter has_text (runs post))"
      by (simp add: post_def s_def)
    ultimately show ?thesis by simp
  qed
  show ?case
    unfolding whole rest line3
    by (simp add: pre_def post_def s_def)
qed

lemma transcriptLines_runs:
  "transcriptLines ws = map run_line (filter has_text (runs ws))"
  by (simp add: transcriptLines_def lines_flush_foldl)

lemma concat_runs: "concat (runs ws) = ws"
  by (induction ws rule: runs.induct) simp_all

lemma runs_same_speaker:
  "r \<in> set (runs ws) \<Longrightarrow> r \<noteq> [] \<and> (\<forall>w \<in> set r. w_speaker_id w = w_speaker_id (hd r))"
proof (induction ws rule: runs.induct)
  case 1
  then show ?case by simp
next
  case (2 w ws)
  show ?case
  proof (cases "r = w # takeWhile (\<lambda>v. w_speaker_id v = w_speaker_id w) ws")
    case True
    then show ?thesis by (auto dest: set_takeWhileD)
  next
    case False
    with "2.prems" have "r \<in> set (runs (dropWhile (\<lambda>v. w_speaker_id v = w_speaker_id w) ws))"
      by simp
    then show ?thesis by (rule "2.IH")
  qed
qed

lemmas assembler_eval =
  wordsToTranscript_def transcriptLines_def step_def flush_def str_def newline_def
  isWhiteSpace_def isPunct_def run_line_def run_fragments_def has_text_def

text \<open>
  C1, as the code has it. The transcript is the lines of the runs that hold at least one
  token other than a spacing token, in order, joined by line breaks: one line
  \<open>speakerId: joined text\<close> for each such run and none for a run of spacing tokens
  only. The empty token sequence gives the empty string.
\<close>

theorem wordsToTranscript_runs:
  "wordsToTranscript ws = join newline (map run_line (filter has_text (runs ws))) \<and>
   wordsToTranscript [] = str ''''"
  by (cases "ws = []") (simp_all add: wordsToTranscript_def transcriptLines_runs str_def)

text \<open>
  C1 as stated, one line for every run, fails where a run has spacing tokens only:
  of the three runs of \<open>interrupted_tokens\<close> the middle one gives no line, and the
  transcript is \<open>A: Hi\<close> and \<open>A: yo\<close>.
\<close>

theorem wordsToTranscript_runs_counterexample:
  "length (runs interrupted_tokens) = 3 \<and>
   wordsToTranscript interrupted_tokens = str ''A: Hi'' @ newline @ str ''A: yo'' \<and>
   wordsToTranscript interrupted_tokens \<noteq>
     join newline (map run_line (runs interrupted_tokens))"
  by (simp add: interrupted_tokens_def assembler_eval)

text \<open>
  C2. The five tokens of the scenario give \<open>A: Hello world.\<close>, a line break and
  \<open>B: Hi\<close>.
\<close>

theorem wordsToTranscript_scenario:
  "wordsToTranscript (scenario_tokens a b) = str ''A: Hello world.'' @ newline @ str ''B: Hi''"
  by (simp add: scenario_tokens_def assembler_eval)

section \<open>Properties of the truncation\<close>

lemma estimateTokens_div: "estimateTokens text = (int (length text) + 3) div 4"
proof -
  have "\<lceil>real (length text) / 4\<rceil> = \<lceil>real_of_int (int (length text)) / real_of_int 4\<rceil>"
    by simp
  also have "\<dots> = - (- int (length text) div 4)"
    by (rule ceiling_divide_eq_div)
  also have "\<dots> = (int (length text) + 3) div 4"
    by presburger
  finally show ?thesis by (simp add: estimateTokens_def)
qed

lemma chunk_floor: "\<lfloor>real_of_int m * 4 / 3\<rfloor> = 4 * m div 3"
proof -
  have "real_of_int m * 4 / 3 = real_of_int (4 * m) / real_of_int 3"
    by simp
  then show ?thesis by (simp only: floor_divide_of_int_eq)
qed

lemma middle_floor_lo: "\<lfloor>real n / 2 - real_of_int c / 2\<rfloor> = (int n - c) div 2"
proof -
  have "real n / 2 - real_of_int c / 2 = real_of_int (int n - c) / real_of_int 2"
    by (simp add: diff_divide_distrib)
  then show ?thesis by (simp only: floor_divide_of_int_eq)
qed

lemma middle_floor_hi: "\<lfloor>real n / 2 + real_of_int c / 2\<rfloor> = (int n + c) div 2"
proof -
  have "real n / 2 + real_of_int c / 2 = real_of_int (int n + c) / real_of_int 2"
    by (simp add: add_divide_distrib)
  then show ?thesis by (simp only: floor_divide_of_int_eq)
qed

lemma truncateTranscript_int:
  "truncateTranscript text m =
     (if (int (length text) + 3) div 4 \<le> m then text
      else slice text 0 (Some (4 * m div 3)) @ middle_marker @
           slice text ((int (length text) - 4 * m div 3) div 2)
             (Some ((int (length text) + 4 * m div 3) div 2)) @
           later_marker @ slice text (- (4 * m div 3)) None)"
  by (simp add: truncateTranscript_def Let_def estimateTokens_div chunk_floor
      middle_floor_lo middle_floor_hi)

lemma marker_lengths: "length middle_marker = 28" "length later_marker = 27"
  by (simp_all add: middle_marker_def later_marker_def newline_def str_def)

lemma slices_over:
  assumes "0 < c" "c < int (length t)"
  shows "slice t 0 (Some c) = take (nat c) t"
    and "slice t ((int (length t) - c) div 2) (Some ((int (length t) + c) div 2))
         = take (nat c) (drop ((length t - nat c) div 2) t)"
    and "slice t (- c) None = drop (length t - nat c) t"
proof -
  let ?n = "int (length t)"
  show "slice t 0 (Some c) = take (nat c) t"
    using assms by (simp add: slice_def Let_def min_def)
  have a0: "0 \<le> (?n - c) div 2" using assms by simp
  have b: "(?n + c) div 2 = (?n - c) div 2 + c" by presburger
  have bn: "(?n + c) div 2 \<le> ?n" using assms by presburger
  have an: "(?n - c) div 2 \<le> ?n" using assms by presburger
  have na: "nat ((?n - c) div 2) = (length t - nat c) div 2"
    using assms by (simp add: nat_div_distrib nat_diff_distrib)
  show "slice t ((?n - c) div 2) (Some ((?n + c) div 2))
         = take (nat c) (drop ((length t - nat c) div 2) t)"
    using a0 bn an assms by (simp add: slice_def Let_def min_def b na)
  have "nat (?n - c) = length t - nat c"
    using assms by (simp add: nat_diff_distrib)
  then show "slice t (- c) None = drop (length t - nat c) t"
    using assms by (simp add: slice_def Let_def max_def)
qed

lemma centred:
  fixes k n :: nat
  assumes "k < n"
  shows "(n - k) div 2 + k + (n - k) div 2 \<le> n \<and> n \<le> (n - k) div 2 + k + (n - k) div 2 + 1"
proof -
  obtain d where d: "n = k + d" using assms less_imp_add_positive by blast
  have "d div 2 + d div 2 \<le> d \<and> d \<le> d div 2 + d div 2 + 1" by presburger
  then show ?thesis by (simp add: d)
qed

text \<open>
  C6. The configured ceiling is a positive number of tokens: the only call passes the
  default, \<open>150000\<close>. A text whose estimate \<open>ceil(length / 4)\<close> is at most
  the ceiling \<open>m\<close> comes back unchanged. A longer text comes back as three slices of
  \<open>c = floor(4 m / 3)\<close> code units each, joined by the two markers: the first \<open>c\<close>
  units, the \<open>c\<close> units that start at \<open>(n - c) div 2\<close> (as many units before the
  slice as after it, or one fewer), and the last \<open>c\<close> units. The result has
  \<open>3 c + 55\<close> units, at most \<open>4 m + 55\<close>.
\<close>

theorem truncateTranscript_chunks:
  assumes "0 < m"
  shows "(estimateTokens text \<le> m \<longrightarrow> truncateTranscript text m = text) \<and>
         (m < estimateTokens text \<longrightarrow>
            (let c = nat (4 * m div 3); n = length text; a = (n - c) div 2 in
               truncateTranscript text m =
                 take c text @ middle_marker @ take c (drop a text) @ later_marker @
                 drop (n - c) text \<and>
               length (take c text) = c \<and>
               length (take c (drop a text)) = c \<and>
               length (drop (n - c) text) = c \<and>
               a + c + a \<le> n \<and> n \<le> a + c + a + 1 \<and>
               length (truncateTranscript text m) = 3 * c + 55 \<and>
               int (length (truncateTranscript text m)) \<le> 4 * m + 55))"
proof (intro conjI impI)
  assume "estimateTokens text \<le> m"
  then show "truncateTranscript text m = text"
    by (simp add: truncateTranscript_def Let_def)
next
  assume over: "m < estimateTokens text"
  define c where "c = 4 * m div 3"
  define n where "n = length text"
  have cpos: "0 < c" using assms by (simp add: c_def) 
  have c4: "3 * c \<le> 4 * m" by (simp add: c_def)
  have n4: "4 * m < int n" using over by (simp add: estimateTokens_div n_def)
  have cn: "c < int (length text)" using c4 n4 cpos by (simp add: n_def)
  have ncn: "nat c < n" using cn cpos by (simp add: n_def)
  have tr: "truncateTranscript text m =
      take (nat c) text @ middle_marker @ take (nat c) (drop ((n - nat c) div 2) text) @
      later_marker @ drop (n - nat c) text"
    using over slices_over [OF cpos cn]
    by (simp add: truncateTranscript_int estimateTokens_div c_def n_def)
  have l1: "length (take (nat c) text) = nat c" using ncn by (simp add: n_def)
  have l2: "length (take (nat c) (drop ((n - nat c) div 2) text)) = nat c"
    using ncn by (simp add: n_def)
  have l3: "length (drop (n - nat c) text) = nat c" using ncn by (simp add: n_def)
  have len: "length (truncateTranscript text m) = 3 * nat c + 55"
    unfolding tr using l1 l2 l3 by (simp add: marker_lengths)
  have bound: "int (length (truncateTranscript text m)) \<le> 4 * m + 55"
    using len c4 cpos by simp
  have centre1: "(n - nat c) div 2 + nat c + (n - nat c) div 2 \<le> n"
    using centred [OF ncn] by (rule conjunct1)
  have centre2: "n \<le> (n - nat c) div 2 + nat c + (n - nat c) div 2 + 1"
    using centred [OF ncn] by (rule conjunct2)
  show "let c = nat (4 * m div 3); n = length text; a = (n - c) div 2 in
               truncateTranscript text m =
                 take c text @ middle_marker @ take c (drop a text) @ later_marker @
                 drop (n - c) text \<and>
               length (take c text) = c \<and>
               length (take c (drop a text)) = c \<and>
               length (drop (n - c) text) = c \<and>
               a + c + a \<le> n \<and> n \<le> a + c + a + 1 \<and>
               length (truncateTranscript text m) = 3 * c + 55 \<and>
               int (length (truncateTranscript text m)) \<le> 4 * m + 55"
    unfolding Let_def c_def [symmetric] n_def [symmetric]
    by (intro conjI tr l1 l2 l3 centre1 centre2 len bound)
qed

theorem truncateTranscript_chunks_witness:
  "(0::int) < 3 \<and> estimateTokens (str ''abc'') \<le> 3 \<and>
   truncateTranscript (str ''abc'') 3 = str ''abc'' \<and>
   3 < estimateTokens (str ''abcdefghijklm'') \<and>
   truncateTranscript (str ''abcdefghijklm'') 3 =
     str ''abcd'' @ middle_marker @ str ''efgh'' @ later_marker @ str ''jklm'' \<and>
   length (truncateTranscript (str ''abcdefghijklm'') 3) = 67"
proof -
  have pos: "(0::int) < 3" by simp
  have under: "estimateTokens (str ''abc'') \<le> 3"
    by (simp add: estimateTokens_div str_def)
  have over: "3 < estimateTokens (str ''abcdefghijklm'')"
    by (simp add: estimateTokens_div str_def)
  have same: "truncateTranscript (str ''abc'') 3 = str ''abc''"
    using truncateTranscript_chunks [OF pos, of "str ''abc''"] under by simp
  have cut: "truncateTranscript (str ''abcdefghijklm'') 3 =
     str ''abcd'' @ middle_marker @ str ''efgh'' @ later_marker @ str ''jklm'' \<and>
     length (truncateTranscript (str ''abcdefghijklm'') 3) = 67"
    using truncateTranscript_chunks [OF pos, of "str ''abcdefghijklm''"] over
    by (simp add: Let_def str_def marker_lengths)
  from pos under over same cut show ?thesis by blast
qed

section \<open>Properties of the tree summarizer\<close>

lemma split_on_not_Nil: "split_on s xs \<noteq> []"
  by (induction xs) (simp_all split: list.splits)

lemma split_on_append_sep: "split_on s (xs @ s # ys) = split_on s xs @ split_on s ys"
proof (induction xs)
  case Nil
  show ?case by simp
next
  case (Cons c xs)
  obtain q qs where "split_on s xs = q # qs"
    using split_on_not_Nil [of s xs] by (cases "split_on s xs") auto
  with Cons.IH show ?case by simp
qed

lemma split_on_join:
  "ls \<noteq> [] \<Longrightarrow> split_on 0x0A (join newline ls) = concat (map (split_on 0x0A) ls)"
proof (induction newline ls rule: join.induct)
  case 1
  then show ?case by simp
next
  case (2 x)
  show ?case by simp
next
  case (3 x y ys)
  have "join newline (x # y # ys) = x @ 0x0A # join newline (y # ys)"
    by (simp add: newline_def)
  with 3 show ?case
    by (simp add: split_on_append_sep del: join.simps)
qed

lemma split_on_pieces: "p \<in> set (split_on s xs) \<Longrightarrow> s \<notin> set p"
proof (induction xs arbitrary: p)
  case Nil
  then show ?case by simp
next
  case (Cons c xs)
  obtain q qs where q: "split_on s xs = q # qs"
    using split_on_not_Nil [of s xs] by (cases "split_on s xs") auto
  then have "s \<notin> set q" and "\<forall>r \<in> set qs. s \<notin> set r"
    using Cons.IH by auto
  with Cons.prems q show ?case
    by (cases "c = s") auto
qed

lemma split_on_line_free: "s \<notin> set l \<Longrightarrow> split_on s l = [l]"
  by (induction l) auto

lemma lines_of_join:
  "filter nonempty (split_on 0x0A (join newline ls)) = drop_blank ls"
proof (cases "ls = []")
  case True
  then show ?thesis by (simp add: drop_blank_def nonempty_def)
next
  case False
  then show ?thesis by (simp add: drop_blank_def split_on_join)
qed

lemma drop_blank_Nil: "drop_blank [] = []"
  by (simp add: drop_blank_def)

lemma drop_blank_append: "drop_blank (xs @ ys) = drop_blank xs @ drop_blank ys"
  by (simp add: drop_blank_def)

lemma drop_blank_concat: "drop_blank (concat xss) = concat (map drop_blank xss)"
  by (induction xss) (simp_all add: drop_blank_append, simp add: drop_blank_def)

lemma drop_blank_clean:
  "\<forall>l \<in> set ls. line_free l \<and> nonempty l \<Longrightarrow> drop_blank ls = ls"
proof (induction ls)
  case Nil
  show ?case by (simp add: drop_blank_def)
next
  case (Cons l ls)
  then have "drop_blank ls = ls" by simp
  moreover have "drop_blank [l] = [l]"
    using Cons.prems by (simp add: drop_blank_def line_free_def split_on_line_free)
  ultimately show ?case
    using drop_blank_append [of "[l]" ls] by simp
qed

lemma drop_blank_pieces: "l \<in> set (drop_blank ls) \<Longrightarrow> line_free l \<and> nonempty l"
  by (auto simp: drop_blank_def line_free_def dest: split_on_pieces)

lemma drop_blank_idem: "drop_blank (drop_blank ls) = drop_blank ls"
  by (rule drop_blank_clean) (blast dest: drop_blank_pieces)

lemma indent_of_Suc: "indent_of (Suc d) = indent_of d @ str ''  ''"
proof -
  have "replicate (2 * Suc d) (0x20 :: 16 word) = replicate (2 * d) 0x20 @ replicate 2 0x20"
    by (simp only: replicate_add [symmetric]) simp
  then show ?thesis
    by (simp add: indent_of_def str_def numeral_2_eq_2)
qed

lemma indent_of_Nil: "indent_of d = [] \<longleftrightarrow> d = 0"
  by (simp add: indent_of_def)

lemma folderTreeToString_lines:
  "filter nonempty (split_on 0x0A (folderTreeToString n (indent_of d)))
   = drop_blank (renderNode d n)"
proof (induction d n rule: renderNode.induct)
  case (1 d nm p ty ch md)
  show ?case
  proof (cases ty)
    case Transcript
    then show ?thesis
      by (cases md) (simp_all add: lines_of_join del: join.simps)
  next
    case Folder
    define mk where
      "mk = (if d = 0 then [] else [indent_of d @ folder_mark @ nm @ str ''/''])"
    have below: "concat (map (\<lambda>child. filter nonempty
            (split_on 0x0A (folderTreeToString child (indent_of d @ str ''  '')))) cs)
        = concat (map (\<lambda>child. drop_blank (renderNode (Suc d) child)) cs)"
      if "ch = Some cs" for cs
    proof -
      have "filter nonempty (split_on 0x0A (folderTreeToString child (indent_of (Suc d))))
          = drop_blank (renderNode (Suc d) child)" if "child \<in> set cs" for child
        using "1.IH" [OF refl Folder \<open>ch = Some cs\<close> that] .
      then show ?thesis
        by (simp add: indent_of_Suc cong: map_cong)
    qed
    have mk_code:
      "(if indent_of d \<noteq> [] then [indent_of d @ folder_mark @ nm @ str ''/''] else []) = mk"
      by (simp add: mk_def indent_of_Nil)
    have code: "folderTreeToString (FolderNode nm p ty ch md) (indent_of d)
        = join newline (mk @ (case ch of None \<Rightarrow> []
            | Some cs \<Rightarrow> concat (map (\<lambda>child. drop_blank (renderNode (Suc d) child)) cs)))"
    proof (cases ch)
      case None
      with Folder show ?thesis by (simp add: mk_code)
    next
      case (Some cs)
      with Folder show ?thesis by (simp add: mk_code below [OF Some])
    qed
    have spec: "renderNode d (FolderNode nm p ty ch md)
        = mk @ (case ch of None \<Rightarrow> []
            | Some cs \<Rightarrow> concat (map (renderNode (Suc d)) cs))"
      using Folder by (simp add: mk_def)
    show ?thesis
      unfolding code spec lines_of_join
      by (simp add: drop_blank_append drop_blank_concat drop_blank_idem o_def
          split: option.splits)
  qed
qed

lemma renderNode_clean:
  "no_line_breaks n \<Longrightarrow> l \<in> set (renderNode d n) \<Longrightarrow> line_free l \<and> nonempty l"
proof (induction d n arbitrary: l rule: renderNode.induct)
  case (1 d nm p ty ch md)
  have ind: "line_free (indent_of d)"
    by (simp add: line_free_def indent_of_def)
  have marks: "line_free page_mark" "line_free folder_mark"
    by (simp_all add: line_free_def page_mark_def folder_mark_def)
  show ?case
  proof (cases ty)
    case Transcript
    with "1.prems" ind marks show ?thesis
      by (cases md)
        (auto simp: line_free_def nonempty_def str_def page_mark_def)
  next
    case Folder
    from "1.prems"(2) Folder
    consider "d \<noteq> 0" "l = indent_of d @ folder_mark @ nm @ str ''/''"
      | cs child where "ch = Some cs" "child \<in> set cs" "l \<in> set (renderNode (Suc d) child)"
      by (auto split: option.splits if_splits)
    then show ?thesis
    proof cases
      case 1
      with "1.prems"(1) ind marks show ?thesis
        by (auto simp: line_free_def nonempty_def str_def folder_mark_def)
    next
      case 2
      from "1.prems"(1) 2 have "no_line_breaks child"
        by (simp add: list_all_iff)
      from "1.IH" [OF refl Folder 2(1) 2(2) this 2(3)] show ?thesis .
    qed
  qed
qed

lemma folderTreeToString_root:
  assumes "type tree = Folder"
  shows "folderTreeToString tree [] = join newline (drop_blank (renderNode 0 tree))"
proof (cases tree)
  case (FolderNode nm p ty ch md)
  with assms have ty: "ty = Folder" by simp
  have one: "str ''  '' = indent_of (Suc 0)"
    by (simp add: indent_of_def str_def numeral_2_eq_2)
  show ?thesis
    unfolding FolderNode
    using ty
    by (simp add: one folderTreeToString_lines drop_blank_concat drop_blank_Nil o_def
        split: option.splits)
qed

lemma indent_of_0: "indent_of 0 = []"
  by (simp add: indent_of_def)

lemmas tree_eval =
  sample_library_def sample_entry_def str_def newline_def page_mark_def folder_mark_def
  nonempty_def indent_of_0 indent_of_Suc line_free_def list_all_iff

text \<open>
  C7, as the code has it. For a tree whose root is a folder, rendered from the empty
  indent, the output is the lines of the specification's rendering (no line for the
  root; an entry at depth \<open>d\<close> as a marker line, a summary line and a theme line behind
  \<open>2 d\<close> spaces; a category folder as a marker line and its children one level deeper),
  cut at their line breaks, without the empty pieces, joined by line breaks. Where no
  name, summary or theme label holds a line break, that is the rendering itself. A root
  with no children renders as the empty string.
\<close>

theorem folderTreeToString_renders:
  assumes "type tree = Folder"
  shows "folderTreeToString tree (str '''') = join newline (drop_blank (renderNode 0 tree)) \<and>
         (no_line_breaks tree \<longrightarrow>
            folderTreeToString tree (str '''') = join newline (renderNode 0 tree)) \<and>
         (children tree = Some [] \<longrightarrow> folderTreeToString tree (str '''') = str '''')"
proof (intro conjI impI)
  show general: "folderTreeToString tree (str '''') = join newline (drop_blank (renderNode 0 tree))"
    using folderTreeToString_root [OF assms] by (simp add: str_def)
  show "folderTreeToString tree (str '''') = join newline (renderNode 0 tree)"
    if "no_line_breaks tree"
  proof -
    have "drop_blank (renderNode 0 tree) = renderNode 0 tree"
      by (rule drop_blank_clean) (blast dest: renderNode_clean [OF that])
    with general show ?thesis by simp
  qed
  show "folderTreeToString tree (str '''') = str ''''" if "children tree = Some []"
    using assms that by (cases tree) (simp add: str_def)
qed

theorem folderTreeToString_renders_witness:
  "type (sample_library (str ''Discussion of AI safety'')) = Folder \<and>
   no_line_breaks (sample_library (str ''Discussion of AI safety'')) \<and>
   folderTreeToString (sample_library (str ''Discussion of AI safety'')) (str '''') =
     join newline
       [str ''  '' @ folder_mark @ str ''ai-podcasts/'',
        str ''    '' @ page_mark @ str ''talk'',
        str ''       Summary: Discussion of AI safety'',
        str ''       Theme: ai-podcasts > talk''] \<and>
   children (FolderNode (str ''transcripts'') (str ''/t'') Folder (Some []) None
     :: TranscriptMetadata FolderNode) = Some [] \<and>
   folderTreeToString (FolderNode (str ''transcripts'') (str ''/t'') Folder (Some []) None)
     (str '''') = str ''''"
proof -
  let ?lib = "sample_library (str ''Discussion of AI safety'')"
  let ?empty = "FolderNode (str ''transcripts'') (str ''/t'') Folder (Some []) None
     :: TranscriptMetadata FolderNode"
  have ty: "type ?lib = Folder" by (simp add: sample_library_def)
  have free: "no_line_breaks ?lib" by (simp add: tree_eval)
  have "folderTreeToString ?lib (str '''') = join newline (renderNode 0 ?lib)"
    using folderTreeToString_renders [OF ty] free by blast
  also have "\<dots> = join newline
       [str ''  '' @ folder_mark @ str ''ai-podcasts/'',
        str ''    '' @ page_mark @ str ''talk'',
        str ''       Summary: Discussion of AI safety'',
        str ''       Theme: ai-podcasts > talk'']"
    by (simp add: tree_eval)
  finally have out: "folderTreeToString ?lib (str '''') = join newline
       [str ''  '' @ folder_mark @ str ''ai-podcasts/'',
        str ''    '' @ page_mark @ str ''talk'',
        str ''       Summary: Discussion of AI safety'',
        str ''       Theme: ai-podcasts > talk'']" .
  have ety: "type ?empty = Folder" and ech: "children ?empty = Some []" by simp_all
  have "folderTreeToString ?empty (str '''') = str ''''"
    using folderTreeToString_renders [OF ety] ech by blast
  with ty free out ech show ?thesis by blast
qed

text \<open>
  C7 as stated, for every tree, fails where a stored summary holds an empty line: the
  summarizer cuts the rendering of each child at its line breaks and drops the empty
  pieces, so the output is not the rendering and does not hold the summary.
\<close>

theorem folderTreeToString_renders_counterexample:
  "type (sample_library (str ''AI safety'' @ newline @ newline @ str ''and more'')) = Folder \<and>
   folderTreeToString
     (sample_library (str ''AI safety'' @ newline @ newline @ str ''and more'')) (str '''') =
     join newline
       [str ''  '' @ folder_mark @ str ''ai-podcasts/'',
        str ''    '' @ page_mark @ str ''talk'',
        str ''       Summary: AI safety'',
        str ''and more'',
        str ''       Theme: ai-podcasts > talk''] \<and>
   folderTreeToString
     (sample_library (str ''AI safety'' @ newline @ newline @ str ''and more'')) (str '''') \<noteq>
     join newline
       (renderNode 0 (sample_library (str ''AI safety'' @ newline @ newline @ str ''and more'')))"
  by (simp add: tree_eval)

section \<open>Properties of the library reader\<close>

lemma loadMetadata_record: "loadMetadata sub = metadata_record sub"
  by (simp add: loadMetadata_def metadata_record_def readFile_def JSON_parse_def
      split: option.splits fsnode.splits json_text.splits)

lemma readDir_Dir:
  "readDir ((nm, Dir sub) # es) rel =
     (if truthy_metadata (metadata_record sub)
      then transcript_entry rel nm (metadata_record sub)
      else category_folder rel nm (readDir sub (child_path rel nm)))
     # readDir es rel"
  by (simp add: loadMetadata_record transcript_entry_def category_folder_def
      child_path_def Let_def)

lemma readDir_subdirectories:
  "readDir es rel =
     map (\<lambda>(nm, sub).
            if truthy_metadata (metadata_record sub)
            then transcript_entry rel nm (metadata_record sub)
            else category_folder rel nm (readDir sub (child_path rel nm)))
         (subdirectories es)"
proof (induction es)
  case Nil
  show ?case by simp
next
  case (Cons e es)
  obtain nm n where e: "e = (nm, n)" by (cases e)
  show ?case
  proof (cases n)
    case (File c)
    with e Cons.IH show ?thesis by simp
  next
    case (Dir sub)
    with e Cons.IH show ?thesis by (simp only: readDir_Dir subdirectories.simps list.map prod.case)
  qed
qed

lemmas reader_eval =
  loadMetadata_def readFile_def JSON_parse_def truthy_metadata_def metadata_record_def
  transcript_entry_def category_folder_def child_path_def str_def Let_def

text \<open>
  C4, as the code has it. The reader makes one node for each subdirectory of a
  listing, in order, and none for a plain file. A subdirectory is a transcript entry
  exactly when its \<^verbatim>\<open>metadata.json\<close> is a file that parses to a truthy value; it is a
  category folder, with the nodes of its own listing as children, otherwise: when the
  file is absent, is a directory, is malformed, or parses to a falsy value. The
  function is total, and the read of an existing base directory returns its tree
  whatever the metadata files hold: malformed metadata does not stop the read.
\<close>

theorem readDir_classifies:
  "readDir es rel =
     map (\<lambda>(nm, sub).
            if truthy_metadata (metadata_record sub)
            then transcript_entry rel nm (metadata_record sub)
            else category_folder rel nm (readDir sub (child_path rel nm)))
         (subdirectories es) \<and>
   (metadata_record sub = None \<longrightarrow>
      readDir [(nm, Dir sub)] rel = [category_folder rel nm (readDir sub (child_path rel nm))]) \<and>
   (\<forall>v. metadata_record sub = Some v \<longrightarrow>
      readDir [(nm, Dir sub)] rel =
        (if truthy_json v then [transcript_entry rel nm (Some v)]
         else [category_folder rel nm (readDir sub (child_path rel nm))])) \<and>
   readDir [(nm, File c)] rel = [] \<and>
   readLibraryStructure (Some (Dir es)) baseDir =
     Inr (FolderNode (str ''transcripts'') baseDir Folder (Some (readDir es (str ''''))) None)"
proof (intro conjI allI impI)
  show "readDir es rel =
     map (\<lambda>(nm, sub).
            if truthy_metadata (metadata_record sub)
            then transcript_entry rel nm (metadata_record sub)
            else category_folder rel nm (readDir sub (child_path rel nm)))
         (subdirectories es)"
    by (rule readDir_subdirectories)
  show "readDir [(nm, Dir sub)] rel = [category_folder rel nm (readDir sub (child_path rel nm))]"
    if "metadata_record sub = None"
    using that by (simp only: readDir_Dir readDir.simps truthy_metadata_def option.case if_False)
  show "readDir [(nm, Dir sub)] rel =
        (if truthy_json v then [transcript_entry rel nm (Some v)]
         else [category_folder rel nm (readDir sub (child_path rel nm))])"
    if "metadata_record sub = Some v" for v
    using that by (simp only: readDir_Dir readDir.simps truthy_metadata_def option.case if_distrib [of "\<lambda>x. [x]"])
  show "readDir [(nm, File c)] rel = []"
    by simp
  show "readLibraryStructure (Some (Dir es)) baseDir =
     Inr (FolderNode (str ''transcripts'') baseDir Folder (Some (readDir es (str ''''))) None)"
    by (simp add: readLibraryStructure_def)
qed

theorem readDir_classifies_witness:
  "metadata_record [(str ''metadata.json'', File Malformed)] = None \<and>
   metadata_record [(str ''metadata.json'', File (Parses (JObject [])))] = Some (JObject []) \<and>
   readDir [(str ''draft'', Dir [(str ''metadata.json'', File Malformed)])] (str ''ai'') =
     [category_folder (str ''ai'') (str ''draft'') []] \<and>
   readDir [(str ''talk'', Dir [(str ''metadata.json'', File (Parses (JObject [])))])] (str ''ai'') =
     [transcript_entry (str ''ai'') (str ''talk'') (Some (JObject []))] \<and>
   readDir sample_archive (str '''') =
     [category_folder (str '''') (str ''ai'')
        [transcript_entry (str ''ai'') (str ''talk'')
           (Some (JObject [(str ''title'', JString (str ''t''))])),
         category_folder (str ''ai'') (str ''draft'') []],
      category_folder (str '''') (str ''misc'') []]"
proof -
  let ?bad = "[(str ''metadata.json'', File Malformed)] :: (ustring \<times> json_text fsnode) list"
  let ?good = "[(str ''metadata.json'', File (Parses (JObject [])))]"
  have none: "metadata_record ?bad = None"
    by (simp add: metadata_record_def)
  have some: "metadata_record ?good = Some (JObject [])"
    by (simp add: metadata_record_def)
  have inner: "readDir ?bad (child_path (str ''ai'') (str ''draft'')) = []"
    by simp
  have a: "readDir [(str ''draft'', Dir ?bad)] (str ''ai'') =
     [category_folder (str ''ai'') (str ''draft'') []]"
    using readDir_classifies [of "[]" "str ''ai''" ?bad "str ''draft''" Malformed] none inner
    by simp
  have b: "readDir [(str ''talk'', Dir ?good)] (str ''ai'') =
     [transcript_entry (str ''ai'') (str ''talk'') (Some (JObject []))]"
    using readDir_classifies [of "[]" "str ''ai''" ?good "str ''talk''" Malformed] some
    by simp
  have c: "readDir sample_archive (str '''') =
     [category_folder (str '''') (str ''ai'')
        [transcript_entry (str ''ai'') (str ''talk'')
           (Some (JObject [(str ''title'', JString (str ''t''))])),
         category_folder (str ''ai'') (str ''draft'') []],
      category_folder (str '''') (str ''misc'') []]"
    by (simp add: sample_archive_def reader_eval)
  from none some a b c show ?thesis by blast
qed

text \<open>
  C4 as stated fails where the metadata record is present and parses to a falsy value:
  a directory whose \<^verbatim>\<open>metadata.json\<close> holds \<^verbatim>\<open>null\<close> has a metadata record that is
  present and parses, and the reader makes it a category folder.
\<close>

theorem readDir_classifies_counterexample:
  "metadata_record null_metadata_dir = Some JNull \<and>
   readDir [(str ''x'', Dir null_metadata_dir)] (str '''') =
     [FolderNode (str ''x'') (str ''x'') Folder (Some []) None]"
  by (simp add: null_metadata_dir_def reader_eval)

text \<open>
  C5. When the base directory does not exist, the reader returns, without an error, the
  tree rooted at the base path with the empty list of children.
\<close>

theorem readLibraryStructure_missing_root:
  "readLibraryStructure None baseDir =
     Inr (FolderNode (str ''transcripts'') baseDir Folder (Some []) None)"
  by (simp add: readLibraryStructure_def)

section \<open>Properties of the classifier's prompt\<close>

lemma prompts_differ: "incrementalPrompt u t f p \<noteq> bootstrapPrompt u' t' p'"
proof
  assume "incrementalPrompt u t f p = bootstrapPrompt u' t' p'"
  then have "take 9 (incrementalPrompt u t f p) = take 9 (bootstrapPrompt u' t' p')"
    by simp
  then show False
    by (simp add: incrementalPrompt_def bootstrapPrompt_def str_def)
qed

lemma hasExistingTranscripts_iff:
  "hasExistingTranscripts lib \<longleftrightarrow> (\<exists>c cs. children lib = Some (c # cs))"
  by (cases "children lib") (auto simp: hasExistingTranscripts_def neq_Nil_conv)

lemma no_children_cases:
  "\<not> (\<exists>c cs. children lib = Some (c # cs)) \<longleftrightarrow> children lib = None \<or> children lib = Some []"
proof (cases "children lib")
  case None
  then show ?thesis by simp
next
  case (Some a)
  then show ?thesis by (cases a) auto
qed

text \<open>
  C8, as the code has it. The classifier builds the bootstrap prompt exactly when the
  root of the library tree has no child node, and the incremental prompt exactly when
  it has one; a folder root with no child has no transcript entry.
\<close>

theorem classifyAndOrganize_prompt_variant:
  "(classifyAndOrganize_prompt tr u ti lib =
      bootstrapPrompt u ti (truncateTranscript tr defaultMaxTokens))
     = (children lib = None \<or> children lib = Some []) \<and>
   (classifyAndOrganize_prompt tr u ti lib =
      incrementalPrompt u ti (folderTreeToString lib (str ''''))
        (truncateTranscript tr defaultMaxTokens))
     = (\<exists>c cs. children lib = Some (c # cs)) \<and>
   (type lib = Folder \<and> (children lib = None \<or> children lib = Some []) \<longrightarrow>
      transcript_entries lib = 0)"
proof (intro conjI impI)
  show "(classifyAndOrganize_prompt tr u ti lib =
      bootstrapPrompt u ti (truncateTranscript tr defaultMaxTokens))
     = (children lib = None \<or> children lib = Some [])"
    unfolding no_children_cases [symmetric] hasExistingTranscripts_iff [symmetric]
    using prompts_differ by (simp add: classifyAndOrganize_prompt_def Let_def)
  show "(classifyAndOrganize_prompt tr u ti lib =
      incrementalPrompt u ti (folderTreeToString lib (str ''''))
        (truncateTranscript tr defaultMaxTokens))
     = (\<exists>c cs. children lib = Some (c # cs))"
    unfolding hasExistingTranscripts_iff [symmetric]
    using prompts_differ [symmetric] by (simp add: classifyAndOrganize_prompt_def Let_def)
  show "transcript_entries lib = 0"
    if "type lib = Folder \<and> (children lib = None \<or> children lib = Some [])"
    using that by (cases lib) auto
qed

theorem classifyAndOrganize_prompt_variant_witness:
  "type first_run_library = Folder \<and> children first_run_library = Some [] \<and>
   transcript_entries first_run_library = 0 \<and>
   classifyAndOrganize_prompt (str ''A: Hi'') (str ''https://example.org/v'') (str ''talk'')
     first_run_library =
     bootstrapPrompt (str ''https://example.org/v'') (str ''talk'')
       (truncateTranscript (str ''A: Hi'') defaultMaxTokens)"
proof -
  have ty: "type first_run_library = Folder" and ch: "children first_run_library = Some []"
    by (simp_all add: first_run_library_def)
  note inst = classifyAndOrganize_prompt_variant [of "str ''A: Hi''"
      "str ''https://example.org/v''" "str ''talk''" first_run_library]
  from inst ty ch have "transcript_entries first_run_library = 0" by blast
  moreover from inst ch have
    "classifyAndOrganize_prompt (str ''A: Hi'') (str ''https://example.org/v'') (str ''talk'')
       first_run_library =
     bootstrapPrompt (str ''https://example.org/v'') (str ''talk'')
       (truncateTranscript (str ''A: Hi'') defaultMaxTokens)"
    by blast
  ultimately show ?thesis using ty ch by blast
qed

text \<open>
  C8 as stated fails for a library with a category folder and no transcript entry: the
  tree holds no entry, and the classifier builds the incremental prompt, not the
  bootstrap one.
\<close>

theorem classifyAndOrganize_prompt_variant_counterexample:
  "transcript_entries empty_category_library = 0 \<and>
   classifyAndOrganize_prompt (str ''A: Hi'') (str ''https://example.org/v'') (str ''talk'')
     empty_category_library =
     incrementalPrompt (str ''https://example.org/v'') (str ''talk'')
       (str ''  '' @ folder_mark @ str ''ai-podcasts/'')
       (truncateTranscript (str ''A: Hi'') defaultMaxTokens) \<and>
   classifyAndOrganize_prompt (str ''A: Hi'') (str ''https://example.org/v'') (str ''talk'')
     empty_category_library \<noteq>
     bootstrapPrompt (str ''https://example.org/v'') (str ''talk'')
       (truncateTranscript (str ''A: Hi'') defaultMaxTokens)"
proof -
  have tree: "folderTreeToString empty_category_library (str '''') =
      str ''  '' @ folder_mark @ str ''ai-podcasts/''"
    by (simp add: empty_category_library_def str_def newline_def folder_mark_def nonempty_def)
  have has: "hasExistingTranscripts empty_category_library"
    by (simp add: hasExistingTranscripts_def empty_category_library_def)
  have count: "transcript_entries empty_category_library = 0"
    by (simp add: empty_category_library_def)
  have prompt: "classifyAndOrganize_prompt (str ''A: Hi'') (str ''https://example.org/v'')
      (str ''talk'') empty_category_library =
     incrementalPrompt (str ''https://example.org/v'') (str ''talk'')
       (str ''  '' @ folder_mark @ str ''ai-podcasts/'')
       (truncateTranscript (str ''A: Hi'') defaultMaxTokens)"
    using has by (simp add: classifyAndOrganize_prompt_def Let_def tree)
  from count prompt prompts_differ show ?thesis by simp
qed

section \<open>Properties of the writes\<close>

lemma map_of_put_entry: "map_of (put_entry nm n es) = (map_of es)(nm \<mapsto> n)"
  by (induction es) (auto simp: fun_eq_iff)

lemma writeFile_cases:
  "writeFile es nm c =
     (if is_dir es nm then Inl EISDIR else Inr (put_entry nm (File c) es))"
  by (simp add: writeFile_def is_dir_def split: option.splits fsnode.splits)

lemma is_dir_put_entry:
  "k \<noteq> nm \<Longrightarrow> is_dir (put_entry nm n es) k = is_dir es k"
  by (simp add: is_dir_def map_of_put_entry)

lemma write_all_map:
  "distinct (map fst fs) \<Longrightarrow>
   map_of (fst (write_all es fs)) k =
     (case map_of fs k of
        None \<Rightarrow> map_of es k
      | Some c \<Rightarrow> if is_dir es k then map_of es k else Some (File c))"
proof (induction fs arbitrary: es)
  case Nil
  show ?case by simp
next
  case (Cons f fs)
  obtain nm c where f: "f = (nm, c)" by (cases f)
  from Cons.prems f have fresh: "map_of fs nm = None" and rest: "distinct (map fst fs)"
    by (auto simp: map_of_eq_None_iff)
  show ?case
  proof (cases "is_dir es nm")
    case True
    then have "fst (write_all es (f # fs)) = fst (write_all es fs)"
      by (simp add: f writeFile_cases split: prod.splits)
    with Cons.IH [OF rest, of es] True fresh show ?thesis
      by (simp add: f)
  next
    case False
    let ?es1 = "put_entry nm (File c) es"
    from False have "fst (write_all es (f # fs)) = fst (write_all ?es1 fs)"
      by (simp add: f writeFile_cases)
    moreover have "is_dir ?es1 k = is_dir es k" if "k \<noteq> nm"
      using that by (rule is_dir_put_entry)
    ultimately show ?thesis
      using Cons.IH [OF rest, of ?es1] False fresh
      by (auto simp: f map_of_put_entry split: option.splits)
  qed
qed

lemma write_all_error:
  "distinct (map fst fs) \<Longrightarrow>
   snd (write_all es fs) = None \<longleftrightarrow> (\<forall>f \<in> set fs. \<not> is_dir es (fst f))"
proof (induction fs arbitrary: es)
  case Nil
  show ?case by simp
next
  case (Cons f fs)
  obtain nm c where f: "f = (nm, c)" by (cases f)
  from Cons.prems f have fresh: "nm \<notin> fst ` set fs" and rest: "distinct (map fst fs)"
    by auto
  show ?case
  proof (cases "is_dir es nm")
    case True
    then show ?thesis
      by (simp add: f writeFile_cases split: prod.splits)
  next
    case False
    let ?es1 = "put_entry nm (File c) es"
    have "is_dir ?es1 (fst g) = is_dir es (fst g)" if "g \<in> set fs" for g
      using that fresh by (intro is_dir_put_entry) auto
    with Cons.IH [OF rest, of ?es1] False show ?thesis
      by (simp add: f writeFile_cases)
  qed
qed

lemma artifact_names_distinct: "distinct (map fst (artifact_files a))"
  by (simp add: artifact_files_def str_def)

lemma save_run_created:
  assumes "mkdir_recursive dest = Inr es"
  shows "fst (save_run (Inr a) nc tmp dest) = Some (Dir (fst (write_all es (artifact_files a))))"
    and "snd (save_run (Inr a) nc tmp dest) = Inr () \<longleftrightarrow>
         snd (write_all es (artifact_files a)) = None \<and> (nc \<longrightarrow> unlink tmp = Inr ())"
  using assms by (auto simp: save_run_def split: prod.splits option.splits)

lemma produced_after:
  assumes "mkdir_recursive dest = Inr es" and "f \<in> set (artifact_files a)"
  shows "produced (fst (save_run (Inr a) nc tmp dest)) f \<longleftrightarrow> \<not> is_dir es (fst f)"
proof -
  obtain nm c where f: "f = (nm, c)" by (cases f)
  have "map_of (artifact_files a) nm = Some c"
    using assms(2) artifact_names_distinct [of a] by (simp add: f)
  then have "map_of (fst (write_all es (artifact_files a))) nm =
      (if is_dir es nm then map_of es nm else Some (File c))"
    by (simp add: write_all_map [OF artifact_names_distinct])
  moreover have "map_of es nm \<noteq> Some (File c)" if "is_dir es nm"
    using that by (auto simp: is_dir_def)
  ultimately show ?thesis
    by (auto simp: produced_def save_run_created(1) [OF assms(1)] f)
qed

lemma all_produced_count:
  assumes "mkdir_recursive dest = Inr es"
    and "\<forall>f \<in> set (artifact_files a). \<not> is_dir es (fst f)"
  shows "produced_count (fst (save_run (Inr a) nc tmp dest)) a = 4"
proof -
  from assms(2)
  have "\<forall>f \<in> set (artifact_files a). produced (fst (save_run (Inr a) nc tmp dest)) f"
    by (simp add: produced_after [OF assms(1)])
  then have "filter (produced (fst (save_run (Inr a) nc tmp dest))) (artifact_files a)
      = artifact_files a"
    by (simp add: filter_id_conv)
  then show ?thesis
    by (simp add: produced_count_def) (simp add: artifact_files_def)
qed

text \<open>
  The run ends well exactly when the folder is made, the four writes succeed and the
  cleanup, where there is one, succeeds. A run whose cleanup fails has failed with all
  four artifacts produced.
\<close>

lemma save_run_success:
  "snd (save_run (Inr a) nc tmp dest) = Inr () \<longleftrightarrow>
     (\<exists>es. mkdir_recursive dest = Inr es \<and>
        (\<forall>f \<in> set (artifact_files a). \<not> is_dir es (fst f))) \<and>
     (nc \<longrightarrow> unlink tmp = Inr ())"
proof (cases "mkdir_recursive dest")
  case (Inl e)
  then show ?thesis by (simp add: save_run_def)
next
  case (Inr es)
  then show ?thesis
    by (simp add: save_run_created(2) [OF Inr] write_all_error [OF artifact_names_distinct])
qed

lemma save_run_cleanup_failure:
  assumes "mkdir_recursive dest = Inr es"
    and "\<forall>f \<in> set (artifact_files a). \<not> is_dir es (fst f)"
    and "unlink tmp = Inl e"
  shows "snd (save_run (Inr a) True tmp dest) = Inl e \<and>
         produced_count (fst (save_run (Inr a) True tmp dest)) a = 4"
proof -
  from assms(2) have "snd (write_all es (artifact_files a)) = None"
    by (simp add: write_all_error [OF artifact_names_distinct])
  with assms(1,3) have "snd (save_run (Inr a) True tmp dest) = Inl e"
    by (auto simp: save_run_def split: prod.splits)
  with all_produced_count [OF assms(1,2)] show ?thesis by simp
qed

text \<open>
  C9, as the code has it. A failure before the writes, or a destination folder that
  cannot be made, leaves the destination as it was. Once the folder is there, each of
  the four artifacts is produced exactly when its own write succeeds (when no directory
  has its name), whatever becomes of the other three: no write is undone. A run in
  which a write fails is a failed run: a run that ends well has had all four writes
  succeed, and all four artifacts are produced.
\<close>

theorem save_run_outcomes:
  "save_run (Inl e) nc tmp dest = (dest, Inl e) \<and>
   (mkdir_recursive dest = Inl e \<longrightarrow> save_run (Inr a) nc tmp dest = (dest, Inl e)) \<and>
   (\<forall>es. mkdir_recursive dest = Inr es \<longrightarrow>
      (\<forall>f \<in> set (artifact_files a).
         produced (fst (save_run (Inr a) nc tmp dest)) f \<longleftrightarrow> \<not> is_dir es (fst f)) \<and>
      (snd (save_run (Inr a) nc tmp dest) = Inr () \<longrightarrow>
         (\<forall>f \<in> set (artifact_files a). \<not> is_dir es (fst f)))) \<and>
   (snd (save_run (Inr a) nc tmp dest) = Inr () \<longrightarrow>
      produced_count (fst (save_run (Inr a) nc tmp dest)) a = 4)"
proof (intro conjI allI impI ballI)
  show "save_run (Inl e) nc tmp dest = (dest, Inl e)"
    by (simp add: save_run_def)
  show "save_run (Inr a) nc tmp dest = (dest, Inl e)" if "mkdir_recursive dest = Inl e"
    using that by (simp add: save_run_def)
  show "produced (fst (save_run (Inr a) nc tmp dest)) f \<longleftrightarrow> \<not> is_dir es (fst f)"
    if "mkdir_recursive dest = Inr es" "f \<in> set (artifact_files a)" for es f
    using that by (rule produced_after)
  show "\<not> is_dir es (fst f)"
    if "mkdir_recursive dest = Inr es" "snd (save_run (Inr a) nc tmp dest) = Inr ()"
      "f \<in> set (artifact_files a)" for es f
    using that
    by (simp add: save_run_created(2) [OF that(1)] write_all_error [OF artifact_names_distinct])
  show "produced_count (fst (save_run (Inr a) nc tmp dest)) a = 4"
    if ok: "snd (save_run (Inr a) nc tmp dest) = Inr ()"
  proof -
    from ok obtain es where es: "mkdir_recursive dest = Inr es"
      and free: "\<forall>f \<in> set (artifact_files a). \<not> is_dir es (fst f)"
      by (auto simp: save_run_success)
    then show ?thesis by (rule all_produced_count)
  qed
qed

lemmas save_eval =
  save_run_def mkdir_recursive_def writeFile_def artifact_files_def produced_count_def
  produced_def sample_artifacts_def blocked_destination_def sample_tmp_def unlink_def
  is_dir_def str_def

theorem save_run_outcomes_witness:
  "mkdir_recursive (Some (File (str ''x''))) = Inl EEXIST \<and>
   save_run (Inr sample_artifacts) True sample_tmp (Some (File (str ''x''))) =
     (Some (File (str ''x'')), Inl EEXIST) \<and>
   mkdir_recursive (None :: ustring fsnode option) = Inr [] \<and>
   snd (save_run (Inr sample_artifacts) True sample_tmp None) = Inr () \<and>
   produced_count (fst (save_run (Inr sample_artifacts) True sample_tmp None)) sample_artifacts = 4 \<and>
   produced (fst (save_run (Inr sample_artifacts) True sample_tmp None))
     (str ''metadata.json'', str ''{}'')"
proof -
  have blocked: "mkdir_recursive (Some (File (str ''x''))) = Inl EEXIST"
    by (simp add: mkdir_recursive_def)
  have made: "mkdir_recursive (None :: ustring fsnode option) = Inr []"
    by (simp add: mkdir_recursive_def)
  have ok: "snd (save_run (Inr sample_artifacts) True sample_tmp None) = Inr ()"
    by (simp add: save_eval)
  have mem: "(str ''metadata.json'', str ''{}'') \<in> set (artifact_files sample_artifacts)"
    by (simp add: artifact_files_def sample_artifacts_def)
  note a = save_run_outcomes [of EEXIST True sample_tmp "Some (File (str ''x''))" sample_artifacts]
  note b = save_run_outcomes [of EEXIST True sample_tmp None sample_artifacts]
  from a blocked
  have 1: "save_run (Inr sample_artifacts) True sample_tmp (Some (File (str ''x'')))
      = (Some (File (str ''x'')), Inl EEXIST)"
    by blast
  from b ok
  have 2: "produced_count (fst (save_run (Inr sample_artifacts) True sample_tmp None))
      sample_artifacts = 4"
    by blast
  from b made ok mem
  have 3: "produced (fst (save_run (Inr sample_artifacts) True sample_tmp None))
      (str ''metadata.json'', str ''{}'')"
    by blast
  from blocked made ok 1 2 3 show ?thesis by blast
qed

text \<open>
  C9 as stated, all four artifacts or none, fails where one write fails: in a
  destination folder that holds a directory named \<^verbatim>\<open>metadata.json\<close> the run fails with
  \<^verbatim>\<open>EISDIR\<close> and leaves three of the four artifacts.
\<close>

theorem save_run_outcomes_counterexample:
  "snd (save_run (Inr sample_artifacts) True sample_tmp blocked_destination) = Inl EISDIR \<and>
   produced_count (fst (save_run (Inr sample_artifacts) True sample_tmp blocked_destination))
     sample_artifacts = 3 \<and>
   fst (save_run (Inr sample_artifacts) True sample_tmp blocked_destination) =
     Some (Dir [(str ''metadata.json'', Dir []),
                (str ''transcription-raw.txt'', File (str ''Hi'')),
                (str ''transcription-raw.json'', File (str ''{}'')),
                (str ''transcription.txt'', File (str ''A: Hi''))])"
  by (simp add: save_eval)

end
